theory Spec2Isabelle
  imports Complex_Main "HOL-Library.AList" "HOL-Library.Multiset" "HOL-Library.Monad_Syntax"
begin

section \<open>Strings\<close>

text \<open>
  A Python \<open>str\<close> is modelled as a \<open>string\<close> (a list of 8-bit characters), read as
  the code points 0..255 of the Python string; code points above 255 are outside the
  model.
\<close>

text \<open>\<open>s.startswith(p)\<close>\<close>

fun startswith :: "string \<Rightarrow> string \<Rightarrow> bool" where
  "startswith s [] = True"
| "startswith [] (p # ps) = False"
| "startswith (c # cs) (p # ps) = (c = p \<and> startswith cs ps)"

text \<open>\<open>sub in s\<close>\<close>

fun contains :: "string \<Rightarrow> string \<Rightarrow> bool" where
  "contains sub [] = startswith [] sub"
| "contains sub (c # cs) = (startswith (c # cs) sub \<or> contains sub cs)"

text \<open>\<open>s.split('?')[0]\<close>: the part of \<open>s\<close> before its first \<open>?\<close> (all of \<open>s\<close> when it has none).\<close>

definition split_query_head :: "string \<Rightarrow> string" where
  "split_query_head s = takeWhile (\<lambda>c. c \<noteq> CHR ''?'') s"

text \<open>\<open>s.rstrip('/')\<close>: every trailing \<open>/\<close> is removed.\<close>

definition rstrip_slash :: "string \<Rightarrow> string" where
  "rstrip_slash s = rev (dropWhile (\<lambda>c. c = CHR ''/'') (rev s))"

section \<open>Discovery: visible URLs\<close>

text \<open>
  \<open>extract_visible_urls\<close>, line 96: \<open>clean_url = href.split('?')[0].rstrip('/')\<close>.
\<close>

definition clean_url :: "string \<Rightarrow> string" where
  "clean_url href = rstrip_slash (split_query_head href)"

text \<open>
  The links found by \<open>find_elements\<close>: for each link the value of
  \<open>get_attribute('href')\<close>, \<open>None\<close> when the attribute is absent or reading it raises
  (the link is skipped in both cases). The whole query raising is the view \<open>None\<close>,
  for which the source returns \<open>[]\<close>.
\<close>

type_synonym view = "string option list option"

fun visible_from :: "string list \<Rightarrow> string option list \<Rightarrow> string list" where
  "visible_from urls [] = urls"
| "visible_from urls (None # links) = visible_from urls links"
| "visible_from urls (Some href # links) =
     (if href \<noteq> [] \<and> contains ''/f/'' href
      then (let c = clean_url href
            in if c \<notin> set urls then visible_from (urls @ [c]) links
               else visible_from urls links)
      else visible_from urls links)"

definition extract_visible_urls :: "view \<Rightarrow> string list" where
  "extract_visible_urls v = (case v of None \<Rightarrow> [] | Some links \<Rightarrow> visible_from [] links)"

section \<open>Discovery: the loop of \<open>collect_all_urls\<close>\<close>

text \<open>
  \<open>self.campaign_urls\<close> is a Python \<open>set\<close>. Its members are kept here as a list
  without duplicates, in the order in which they were added, so that insertion order
  can be spoken about; \<open>in\<close>, \<open>add\<close> and \<open>len\<close> depend on the members only.
\<close>

record loop_state =
  campaign_urls :: "string list"
  attempts :: nat
  no_new_count :: nat

text \<open>
  How the loop ends: the \<open>break\<close> of line 150 or a false \<open>len(...) < max_campaigns\<close>
  at the loop head (\<open>Capped\<close>), the \<open>break\<close> of line 154 (\<open>Exhausted\<close>), or
  \<open>attempts <= 100\<close> false at the loop head (\<open>Budget\<close>).
\<close>

datatype outcome = Capped | Exhausted | Budget

text \<open>\<open>s.add(u)\<close>\<close>

definition add_url :: "string list \<Rightarrow> string \<Rightarrow> string list" where
  "add_url s u = (if u \<in> set s then s else s @ [u])"

text \<open>Line 132: \<open>new_urls = [u for u in visible_urls if u not in self.campaign_urls]\<close>.\<close>

definition new_urls :: "string list \<Rightarrow> string list \<Rightarrow> string list" where
  "new_urls visible s = filter (\<lambda>u. u \<notin> set s) visible"

text \<open>Lines 131 to 145: one reading of the page, up to the stop conditions.\<close>

definition iteration :: "loop_state \<Rightarrow> view \<Rightarrow> loop_state" where
  "iteration st v =
     (let visible_urls = extract_visible_urls v;
          new = new_urls visible_urls (campaign_urls st)
      in if new \<noteq> []
         then st\<lparr>campaign_urls := foldl add_url (campaign_urls st) new, no_new_count := 0\<rparr>
         else st\<lparr>no_new_count := no_new_count st + 1\<rparr>)"

text \<open>
  Lines 129 to 165. The listing page is the environment: \<open>views i\<close> is what the page
  shows when it is read with \<open>attempts = i\<close> (clicking \<open>Show more\<close> and scrolling only
  change what the next reading shows; the driver is taken to answer).
\<close>

function collect_loop :: "int \<Rightarrow> (nat \<Rightarrow> view) \<Rightarrow> loop_state \<Rightarrow> outcome \<times> loop_state" where
  "collect_loop max_campaigns views st =
     (if int (length (campaign_urls st)) < max_campaigns \<and> attempts st \<le> 100
      then (let st1 = iteration st (views (attempts st))
            in if max_campaigns \<le> int (length (campaign_urls st1)) then (Capped, st1)
               else if 3 \<le> no_new_count st1 then (Exhausted, st1)
               else collect_loop max_campaigns views (st1\<lparr>attempts := attempts st1 + 1\<rparr>))
      else if max_campaigns \<le> int (length (campaign_urls st)) then (Capped, st)
      else (Budget, st))"
  by pat_completeness auto

lemma attempts_iteration: "attempts (iteration st v) = attempts st"
  by (simp add: iteration_def Let_def)

termination collect_loop
  by (relation "measure (\<lambda>(m, views, st). 101 - attempts st)")
     (auto simp: attempts_iteration)

declare collect_loop.simps [simp del]

text \<open>\<open>xs[:n]\<close>: a negative \<open>n\<close> counts from the end.\<close>

definition py_slice_to :: "'a list \<Rightarrow> int \<Rightarrow> 'a list" where
  "py_slice_to xs n =
     (if 0 \<le> n then take (nat n) xs else take (nat (int (length xs) + n)) xs)"

text \<open>
  Line 172: \<open>urls_list = list(self.campaign_urls)[:max_campaigns]\<close>. A Python \<open>set\<close>
  is a hash table and \<open>list(s)\<close> walks its slots: the order depends on the hashes of the
  members (for strings, on the hash seed of the process), not on when they were added.
  The order is the parameter \<open>set_iter\<close>, of which only \<open>enumerates\<close> is known.
\<close>

definition enumerates :: "('a list \<Rightarrow> 'a list) \<Rightarrow> 'a list \<Rightarrow> bool" where
  "enumerates set_iter s = (mset (set_iter s) = mset s)"

definition snapshot :: "(string list \<Rightarrow> string list) \<Rightarrow> string list \<Rightarrow> int \<Rightarrow> string list" where
  "snapshot set_iter s max_campaigns = py_slice_to (set_iter s) max_campaigns"

definition collect_all_urls ::
  "(string list \<Rightarrow> string list) \<Rightarrow> int \<Rightarrow> (nat \<Rightarrow> view) \<Rightarrow> string list \<Rightarrow> string list" where
  "collect_all_urls set_iter max_campaigns views s0 =
     snapshot set_iter
       (campaign_urls (snd (collect_loop max_campaigns views
          \<lparr>campaign_urls = s0, attempts = 0, no_new_count = 0\<rparr>)))
       max_campaigns"

section \<open>Text: character classes, numbers, regular expressions\<close>

text \<open>\<open>\d\<close>: within the code points 0..255 the decimal digits are \<open>0\<close> to \<open>9\<close>.\<close>

definition is_digit :: "char \<Rightarrow> bool" where
  "is_digit c = (c \<in> set ''0123456789'')"

text \<open>\<open>[A-Za-z]\<close>\<close>

definition is_alpha :: "char \<Rightarrow> bool" where
  "is_alpha c = (c \<in> set ''ABCDEFGHIJKLMNOPQRSTUVWXYZabcdefghijklmnopqrstuvwxyz'')"

text \<open>
  \<open>\s\<close> and the characters removed by \<open>str.strip()\<close>: within the code points 0..255
  these are 9 to 13, 28 to 32, 133 and 160.
\<close>

definition is_space :: "char \<Rightarrow> bool" where
  "is_space c =
     (let n = (of_char c :: nat)
      in (9 \<le> n \<and> n \<le> 13) \<or> (28 \<le> n \<and> n \<le> 32) \<or> n = 133 \<or> n = 160)"

text \<open>\<open>s.strip()\<close>\<close>

definition strip :: "string \<Rightarrow> string" where
  "strip s = rev (dropWhile is_space (rev (dropWhile is_space s)))"

text \<open>The lower-case form of an ASCII letter, for matching under \<open>re.IGNORECASE\<close>.\<close>

definition lower :: "char \<Rightarrow> char" where
  "lower c =
     (case map_of (zip ''ABCDEFGHIJKLMNOPQRSTUVWXYZ'' ''abcdefghijklmnopqrstuvwxyz'') c of
        Some l \<Rightarrow> l
      | None \<Rightarrow> c)"

text \<open>The value of a decimal digit, and the digit of a value below ten.\<close>

definition digit_val :: "char \<Rightarrow> nat" where
  "digit_val c = of_char c - 48"

definition digit_char :: "nat \<Rightarrow> char" where
  "digit_char d = ''0123456789'' ! d"

text \<open>The number that a string of decimal digits stands for.\<close>

definition digits_value :: "string \<Rightarrow> nat" where
  "digits_value s = foldl (\<lambda>a c. 10 * a + digit_val c) 0 s"

text \<open>
  \<open>int(s)\<close> on a string that holds nothing but decimal digits (the only strings the
  source passes to it). It raises \<open>ValueError\<close>, here \<open>None\<close>, on the empty string
  and on a string of more than \<open>sys.get_int_max_str_digits()\<close> digits, leading zeros
  counted; the limit is CPython's default, 4300.
\<close>

definition int_max_str_digits :: nat where
  "int_max_str_digits = 4300"

definition py_int :: "string \<Rightarrow> nat option" where
  "py_int s =
     (if s \<noteq> [] \<and> list_all is_digit s \<and> length s \<le> int_max_str_digits
      then Some (digits_value s)
      else None)"

text \<open>\<open>str(n)\<close> for \<open>n >= 0\<close>\<close>

fun str_nat :: "nat \<Rightarrow> string" where
  "str_nat n =
     (if n < 10 then [digit_char n] else str_nat (n div 10) @ [digit_char (n mod 10)])"

declare str_nat.simps [simp del]

text \<open>\<open>str(i)\<close>\<close>

definition str_int :: "int \<Rightarrow> string" where
  "str_int i = (if i < 0 then CHR ''-'' # str_nat (nat (- i)) else str_nat (nat i))"

subsection \<open>Pieces of the patterns\<close>

text \<open>
  Each piece takes the text at the current position and gives what it consumed (where
  it is a group) and the rest, or \<open>None\<close> when it does not match there. The pieces of
  the three date patterns meet in character classes that do not overlap (digits,
  white space, letters, a comma), so the greedy choice is the only one that can lead to
  a match and backtracking never finds another.
\<close>

text \<open>\<open>(\d+)\<close>\<close>

definition digits1 :: "string \<Rightarrow> (string \<times> string) option" where
  "digits1 s =
     (if takeWhile is_digit s = [] then None
      else Some (takeWhile is_digit s, dropWhile is_digit s))"

text \<open>\<open>([A-Za-z]+)\<close>\<close>

definition letters1 :: "string \<Rightarrow> (string \<times> string) option" where
  "letters1 s =
     (if takeWhile is_alpha s = [] then None
      else Some (takeWhile is_alpha s, dropWhile is_alpha s))"

text \<open>\<open>(\d{4})\<close>\<close>

definition digits4 :: "string \<Rightarrow> (string \<times> string) option" where
  "digits4 s =
     (if 4 \<le> length s \<and> list_all is_digit (take 4 s) then Some (take 4 s, drop 4 s)
      else None)"

text \<open>\<open>\s*\<close> and \<open>\s+\<close>\<close>

definition spaces0 :: "string \<Rightarrow> string" where
  "spaces0 s = dropWhile is_space s"

definition spaces1 :: "string \<Rightarrow> string option" where
  "spaces1 s = (if takeWhile is_space s = [] then None else Some (dropWhile is_space s))"

text \<open>A literal, matched as written, and a literal in lower case matched under \<open>re.IGNORECASE\<close>.\<close>

fun lit :: "string \<Rightarrow> string \<Rightarrow> string option" where
  "lit [] s = Some s"
| "lit (p # ps) [] = None"
| "lit (p # ps) (c # cs) = (if c = p then lit ps cs else None)"

fun lit_ci :: "string \<Rightarrow> string \<Rightarrow> string option" where
  "lit_ci [] s = Some s"
| "lit_ci (p # ps) [] = None"
| "lit_ci (p # ps) (c # cs) = (if lower c = p then lit_ci ps cs else None)"

text \<open>An optional piece: \<open>x?\<close> takes \<open>x\<close> when it is there.\<close>

definition opt :: "(string \<Rightarrow> string option) \<Rightarrow> string \<Rightarrow> string" where
  "opt m s = (case m s of Some r \<Rightarrow> r | None \<Rightarrow> s)"

text \<open>\<open>re.search\<close>: the match at the leftmost position that has one.\<close>

fun search :: "(string \<Rightarrow> 'a option) \<Rightarrow> string \<Rightarrow> 'a option" where
  "search m [] = m []"
| "search m (c # cs) = (case m (c # cs) of Some g \<Rightarrow> Some g | None \<Rightarrow> search m cs)"

subsection \<open>The patterns of the source\<close>

text \<open>Line 193: \<open>(\d+)\s*hrs?\s+ago\<close> with \<open>re.IGNORECASE\<close>; the group is not used.\<close>

definition match_hrs :: "string \<Rightarrow> string option" where
  "match_hrs s =
     do {
       (n, r) \<leftarrow> digits1 s;
       r \<leftarrow> lit_ci ''hr'' (spaces0 r);
       r \<leftarrow> spaces1 (opt (lit_ci ''s'') r);
       r \<leftarrow> lit_ci ''ago'' r;
       Some n
     }"

text \<open>Line 197: \<open>(\d+)\s*d(?:ays?)?\s+ago\<close> with \<open>re.IGNORECASE\<close>; the result is group 1.\<close>

definition match_days :: "string \<Rightarrow> string option" where
  "match_days s =
     do {
       (n, r) \<leftarrow> digits1 s;
       r \<leftarrow> lit_ci ''d'' (spaces0 r);
       r \<leftarrow> spaces1 (opt (\<lambda>r. map_option (opt (lit_ci ''s'')) (lit_ci ''ay'' r)) r);
       r \<leftarrow> lit_ci ''ago'' r;
       Some n
     }"

text \<open>
  Line 202: \<open>Created\s+([A-Za-z]+)\s+(\d+)(?:st|nd|rd|th)?,?\s+(\d{4})\<close>; the result is
  groups 1, 2 and 3.
\<close>

definition ordinal_suffix :: "string \<Rightarrow> string option" where
  "ordinal_suffix s =
     (case lit ''st'' s of Some r \<Rightarrow> Some r | None \<Rightarrow>
      (case lit ''nd'' s of Some r \<Rightarrow> Some r | None \<Rightarrow>
       (case lit ''rd'' s of Some r \<Rightarrow> Some r | None \<Rightarrow> lit ''th'' s)))"

definition match_created :: "string \<Rightarrow> (string \<times> string \<times> string) option" where
  "match_created s =
     do {
       r \<leftarrow> lit ''Created'' s;
       r \<leftarrow> spaces1 r;
       (month_name, r) \<leftarrow> letters1 r;
       r \<leftarrow> spaces1 r;
       (day, r) \<leftarrow> digits1 r;
       r \<leftarrow> spaces1 (opt (lit '','') (opt ordinal_suffix r));
       (year, r) \<leftarrow> digits4 r;
       Some (month_name, day, year)
     }"

text \<open>Line 244: \<open>re.findall(r'\$[\d,]+', page_text)\<close>, the matches from left to right.\<close>

definition digit_or_comma :: "char \<Rightarrow> bool" where
  "digit_or_comma c = (is_digit c \<or> c = CHR '','')"

function findall_amounts :: "string \<Rightarrow> string list" where
  "findall_amounts [] = []"
| "findall_amounts (c # cs) =
     (if c = CHR ''$'' \<and> takeWhile digit_or_comma cs \<noteq> []
      then (c # takeWhile digit_or_comma cs) # findall_amounts (dropWhile digit_or_comma cs)
      else findall_amounts cs)"
  by pat_completeness auto

termination findall_amounts
  by (relation "measure length") (auto simp: less_Suc_eq_le length_dropWhile_le)

section \<open>Dates\<close>

text \<open>
  The proleptic Gregorian calendar of Python's \<open>datetime\<close>: the ordinal of a date is
  the number of days from 1 January of year 1, which has ordinal 1.
\<close>

definition is_leap :: "nat \<Rightarrow> bool" where
  "is_leap y = (y mod 4 = 0 \<and> (y mod 100 \<noteq> 0 \<or> y mod 400 = 0))"

definition days_in_month :: "nat \<Rightarrow> nat \<Rightarrow> nat" where
  "days_in_month y m =
     (if m = 2 \<and> is_leap y then 29
      else [31, 28, 31, 30, 31, 30, 31, 31, 30, 31, 30, 31] ! (m - 1))"

definition days_before_year :: "nat \<Rightarrow> nat" where
  "days_before_year y = (y - 1) * 365 + (y - 1) div 4 - (y - 1) div 100 + (y - 1) div 400"

definition days_before_month :: "nat \<Rightarrow> nat \<Rightarrow> nat" where
  "days_before_month y m =
     [0, 31, 59, 90, 120, 151, 181, 212, 243, 273, 304, 334] ! (m - 1)
       + (if 2 < m \<and> is_leap y then 1 else 0)"

record datetime =
  year :: nat
  month :: nat
  day :: nat
  hour :: nat
  minute :: nat
  second :: nat
  microsecond :: nat

definition toordinal :: "datetime \<Rightarrow> nat" where
  "toordinal t = days_before_year (year t) + days_before_month (year t) (month t) + day t"

text \<open>The microseconds from the start of ordinal day 0 to a naive datetime.\<close>

definition to_microseconds :: "datetime \<Rightarrow> int" where
  "to_microseconds t =
     (((int (toordinal t) * 24 + int (hour t)) * 60 + int (minute t)) * 60 + int (second t))
       * 1000000 + int (microsecond t)"

text \<open>\<open>(a - b).days\<close>: a \<open>timedelta\<close> is normalised so that its days are the floor.\<close>

definition timedelta_days :: "datetime \<Rightarrow> datetime \<Rightarrow> int" where
  "timedelta_days a b = (to_microseconds a - to_microseconds b) div 86400000000"

text \<open>\<open>datetime(y, m, d)\<close>: raises \<open>ValueError\<close> (here \<open>None\<close>) outside the calendar.\<close>

definition mk_date :: "nat \<Rightarrow> nat \<Rightarrow> nat \<Rightarrow> datetime option" where
  "mk_date y m d =
     (if 1 \<le> y \<and> y \<le> 9999 \<and> 1 \<le> m \<and> m \<le> 12 \<and> 1 \<le> d \<and> d \<le> days_in_month y m
      then Some \<lparr>year = y, month = m, day = d, hour = 0, minute = 0, second = 0,
                 microsecond = 0\<rparr>
      else None)"

text \<open>
  \<open>datetime.strptime(f"{month_name} {day}, {year}", "%B %d, %Y")\<close> on the three groups
  of the pattern of line 202 (letters, digits, four digits), in the C locale:
  \<open>%B\<close> is a full English month name in any letter case, \<open>%d\<close> is one digit from 1 to 9
  or two digits from 01 to 31, \<open>%Y\<close> is four digits. \<open>None\<close> is \<open>ValueError\<close>.
\<close>

definition month_number :: "string \<Rightarrow> nat option" where
  "month_number name =
     map_of [(''january'', 1), (''february'', 2), (''march'', 3), (''april'', 4), (''may'', 5),
             (''june'', 6), (''july'', 7), (''august'', 8), (''september'', 9),
             (''october'', 10), (''november'', 11), (''december'', 12)]
       (map lower name)"

definition parse_day :: "string \<Rightarrow> nat option" where
  "parse_day ds =
     (case py_int ds of
        None \<Rightarrow> None
      | Some v \<Rightarrow> if length ds \<le> 2 \<and> 1 \<le> v \<and> v \<le> 31 then Some v else None)"

definition strptime_B_d_Y :: "string \<Rightarrow> string \<Rightarrow> string \<Rightarrow> datetime option" where
  "strptime_B_d_Y month_name day_s year_s =
     do {
       m \<leftarrow> month_number month_name;
       d \<leftarrow> parse_day day_s;
       y \<leftarrow> py_int year_s;
       mk_date y m d
     }"

text \<open>Line 211: \<open>today = datetime(2025, 10, 26)\<close>.\<close>

definition today :: datetime where
  "today = \<lparr>year = 2025, month = 10, day = 26, hour = 0, minute = 0, second = 0,
            microsecond = 0\<rparr>"

text \<open>
  Lines 192 to 217 of \<open>extract_days_running\<close>, on the text of the byline or of the
  page.
\<close>

definition days_running_of_text :: "string \<Rightarrow> string" where
  "days_running_of_text text =
     (if search match_hrs text \<noteq> None then ''0''
      else case search match_days text of
        Some n \<Rightarrow> n
      | None \<Rightarrow>
         (case search match_created text of
            None \<Rightarrow> ''Unknown''
          | Some (month_name, day_s, year_s) \<Rightarrow>
             (case strptime_B_d_Y month_name day_s year_s of
                None \<Rightarrow> ''Unknown''
              | Some created_date \<Rightarrow>
                 (let days_diff = timedelta_days today created_date
                  in if 0 \<le> days_diff then str_int days_diff else ''Unknown''))))"

section \<open>Python values and dictionaries\<close>

text \<open>
  The values that records hold. A \<open>dict\<close> is the list of its items in insertion order,
  with distinct keys; a \<open>float\<close> is the rational number it stands for.
\<close>

datatype pyval =
    PNone
  | PBool bool
  | PInt int
  | PFloat rat
  | PStr string
  | PList "pyval list"
  | PDict "(string \<times> pyval) list"

type_synonym pydict = "(string \<times> pyval) list"

text \<open>The truth value of \<open>v\<close> in \<open>if v\<close> and \<open>not v\<close>.\<close>

fun truthy :: "pyval \<Rightarrow> bool" where
  "truthy PNone = False"
| "truthy (PBool b) = b"
| "truthy (PInt i) = (i \<noteq> 0)"
| "truthy (PFloat r) = (r \<noteq> 0)"
| "truthy (PStr s) = (s \<noteq> [])"
| "truthy (PList l) = (l \<noteq> [])"
| "truthy (PDict d) = (d \<noteq> [])"

text \<open>\<open>d.get(k, default)\<close> and \<open>d[k] = v\<close>\<close>

definition dict_get :: "pydict \<Rightarrow> string \<Rightarrow> pyval \<Rightarrow> pyval" where
  "dict_get d k dflt = (case map_of d k of Some v \<Rightarrow> v | None \<Rightarrow> dflt)"

definition setitem :: "pydict \<Rightarrow> string \<Rightarrow> pyval \<Rightarrow> pydict" where
  "setitem d k v = AList.update k v d"

section \<open>Detail extraction with the browser (\<open>gofundme_scraper_show_more.py\<close>)\<close>

text \<open>
  A campaign page as the driver shows it: one field for each lookup the source makes.
  \<open>None\<close> is a lookup that raises (the element is not found, or an exception of any
  kind arrives inside the \<open>try\<close> around it); for a \<open>meta\<close> element the inner option is the
  value of \<open>get_attribute('content')\<close>, which is \<open>None\<close> when the attribute is absent.
\<close>

record page =
  body_text :: "string option"
  og_image :: "string option option"
  desc_o_campaign :: "string option"
  desc_campaign :: "string option"
  og_description :: "string option option"
  byline_created :: "string option"

text \<open>Lines 183 to 220.\<close>

definition extract_days_running :: "page \<Rightarrow> string" where
  "extract_days_running p =
     (case (case byline_created p of Some t \<Rightarrow> Some (strip t) | None \<Rightarrow> body_text p) of
        None \<Rightarrow> ''Unknown''
      | Some text \<Rightarrow> days_running_of_text text)"

text \<open>Lines 236 to 240.\<close>

definition image_url_of :: "page \<Rightarrow> pyval" where
  "image_url_of p =
     (case og_image p of
        None \<Rightarrow> PStr ''''
      | Some None \<Rightarrow> PNone
      | Some (Some content) \<Rightarrow> PStr content)"

text \<open>
  Lines 243 to 251. \<open>int\<close> raises on a match that holds no digit (a \<open>$\<close> followed by
  commas only) and on a match of more than 4300 digits; the \<open>except\<close> then stores
  \<open>'0'\<close>.
\<close>

definition amount_number :: "string \<Rightarrow> nat option" where
  "amount_number a = py_int (filter (\<lambda>c. c \<noteq> CHR '','') (filter (\<lambda>c. c \<noteq> CHR ''$'') a))"

fun sequence :: "'a option list \<Rightarrow> 'a list option" where
  "sequence [] = Some []"
| "sequence (None # xs) = None"
| "sequence (Some x # xs) = map_option ((#) x) (sequence xs)"

fun py_max :: "nat list \<Rightarrow> nat" where
  "py_max [] = 0"
| "py_max (x # xs) = foldl max x xs"

definition amount_raised :: "string \<Rightarrow> string" where
  "amount_raised page_text =
     (let amounts = findall_amounts page_text
      in if amounts \<noteq> []
         then (case sequence (map amount_number amounts) of
                 Some amounts_numeric \<Rightarrow> str_nat (py_max amounts_numeric)
               | None \<Rightarrow> ''0'')
         else ''0'')"

text \<open>
  Lines 254 to 278. The loop over the three selectors: \<open>description\<close> holds the value
  of the last lookup that did not raise, and the loop stops at the first value longer
  than 20 characters.
\<close>

fun description_loop :: "string option \<Rightarrow> string option option list \<Rightarrow> string option" where
  "description_loop description [] = description"
| "description_loop description (None # selectors) = description_loop description selectors"
| "description_loop description (Some found # selectors) =
     (case found of
        Some text \<Rightarrow>
          if text \<noteq> [] \<and> 20 < length text then Some text
          else description_loop (Some text) selectors
      | None \<Rightarrow> description_loop None selectors)"

definition description_of :: "page \<Rightarrow> string" where
  "description_of p =
     (case description_loop (Some '''')
             [map_option (\<lambda>t. Some (strip t)) (desc_o_campaign p),
              map_option (\<lambda>t. Some (strip t)) (desc_campaign p),
              og_description p] of
        Some description \<Rightarrow> take 500 description
      | None \<Rightarrow> '''')"

text \<open>Lines 289 to 295: the record of a page that could not be read.\<close>

definition default_record :: "string \<Rightarrow> pydict" where
  "default_record url =
     [(''url'', PStr url), (''image_url'', PStr ''''), (''amount_raised'', PStr ''0''),
      (''description'', PStr ''''), (''days_running'', PStr ''Unknown'')]"

text \<open>
  Lines 222 to 295. The argument is what \<open>driver.get(url)\<close> loads, \<open>None\<close> when loading
  raises an \<open>Exception\<close>.
\<close>

definition extract_campaign_details :: "page option \<Rightarrow> string \<Rightarrow> pydict" where
  "extract_campaign_details loaded url =
     (case loaded of
        None \<Rightarrow> default_record url
      | Some p \<Rightarrow>
         (case body_text p of
            None \<Rightarrow> default_record url
          | Some page_text \<Rightarrow>
             (let data = [(''url'', PStr url)];
                  data = setitem data ''image_url'' (image_url_of p);
                  data = setitem data ''amount_raised'' (PStr (amount_raised page_text));
                  data = setitem data ''description'' (PStr (description_of p));
                  data = setitem data ''days_running'' (PStr (extract_days_running p))
              in data)))"

section \<open>The detail loop\<close>

text \<open>
  Lines 306 to 321. \<open>KeyboardInterrupt\<close> is not an \<open>Exception\<close>: it passes the
  \<open>except Exception\<close> of \<open>extract_campaign_details\<close> and is caught by the loop's
  \<open>except KeyboardInterrupt\<close>, which ends the loop and keeps \<open>self.campaigns\<close>. It
  arrives at most once, while the URL number \<open>i\<close> (counted from 1) is handled: before
  the record of that URL is appended (while the page loads), or after it (during the
  progress report or the delay). An interrupt that arrives inside one of the bare
  \<open>except:\<close> blocks of the extraction is swallowed there and shows as a failed lookup
  of the page.
\<close>

datatype phase = BeforeAppend | AfterAppend

fun detail_loop ::
  "(string \<Rightarrow> page option) \<Rightarrow> (nat \<times> phase) option \<Rightarrow> nat \<Rightarrow> pydict list \<Rightarrow> string list
     \<Rightarrow> pydict list" where
  "detail_loop fetch interrupt i campaigns [] = campaigns"
| "detail_loop fetch interrupt i campaigns (url # urls) =
     (if interrupt = Some (i, BeforeAppend) then campaigns
      else (let campaign_data = extract_campaign_details (fetch url) url;
                campaigns = campaigns @ [campaign_data]
            in if interrupt = Some (i, AfterAppend) then campaigns
               else detail_loop fetch interrupt (i + 1) campaigns urls))"

text \<open>\<open>extract_all_details\<close>: the value of \<open>self.campaigns\<close> when it returns.\<close>

definition extract_all_details ::
  "(string \<Rightarrow> page option) \<Rightarrow> (nat \<times> phase) option \<Rightarrow> pydict list \<Rightarrow> string list
     \<Rightarrow> pydict list" where
  "extract_all_details fetch interrupt campaigns urls =
     detail_loop fetch interrupt 1 campaigns urls"

section \<open>Canonical URLs\<close>

lemma split_query_head_no_query:
  "CHR ''?'' \<notin> set (split_query_head s)"
  unfolding split_query_head_def by (induction s) auto

lemma split_query_head_id:
  "CHR ''?'' \<notin> set s \<Longrightarrow> split_query_head s = s"
  unfolding split_query_head_def by (induction s) auto

lemma split_query_head_append_query:
  "split_query_head (s @ CHR ''?'' # q) = split_query_head s"
  unfolding split_query_head_def by (induction s) auto

lemma split_query_head_append_plain:
  "CHR ''?'' \<notin> set t \<Longrightarrow>
   split_query_head (s @ t) = (if CHR ''?'' \<in> set s then split_query_head s else s @ t)"
  unfolding split_query_head_def by (induction s) (auto simp: takeWhile_eq_all_conv)

lemma rstrip_slash_subset: "set (rstrip_slash s) \<subseteq> set s"
  unfolding rstrip_slash_def using set_dropWhileD by fastforce

lemma rstrip_slash_id:
  "s = [] \<or> last s \<noteq> CHR ''/'' \<Longrightarrow> rstrip_slash s = s"
  unfolding rstrip_slash_def by (cases s rule: rev_cases) auto

lemma rstrip_slash_append_slash: "rstrip_slash (s @ ''/'') = rstrip_slash s"
  unfolding rstrip_slash_def by simp

lemma rstrip_slash_no_trailing:
  "rstrip_slash s = [] \<or> last (rstrip_slash s) \<noteq> CHR ''/''"
proof (cases "dropWhile (\<lambda>c. c = CHR ''/'') (rev s)")
  case Nil
  then show ?thesis by (simp add: rstrip_slash_def)
next
  case (Cons c cs)
  then have "c \<noteq> CHR ''/''"
    using hd_dropWhile [of "\<lambda>c. c = CHR ''/''" "rev s"] by auto
  with Cons show ?thesis by (simp add: rstrip_slash_def)
qed

lemma clean_url_idem: "clean_url (clean_url h) = clean_url h"
proof -
  have "CHR ''?'' \<notin> set (clean_url h)"
    unfolding clean_url_def using rstrip_slash_subset split_query_head_no_query by blast
  then have "split_query_head (clean_url h) = clean_url h"
    by (rule split_query_head_id)
  moreover have "rstrip_slash (clean_url h) = clean_url h"
    unfolding clean_url_def by (rule rstrip_slash_id) (rule rstrip_slash_no_trailing)
  ultimately show ?thesis by (simp add: clean_url_def)
qed

lemma clean_url_query_variant: "clean_url (u @ ''?x=1'') = clean_url u"
  unfolding clean_url_def by (simp add: split_query_head_append_query)

lemma clean_url_slash_variant: "clean_url (u @ ''/'') = clean_url u"
proof (cases "CHR ''?'' \<in> set u")
  case True
  then show ?thesis
    unfolding clean_url_def by (simp add: split_query_head_append_plain)
next
  case False
  then show ?thesis
    unfolding clean_url_def
    by (simp add: split_query_head_append_plain split_query_head_id rstrip_slash_append_slash)
qed

text \<open>
  C6. Cleaning a URL is idempotent, and for a URL \<open>u\<close> with no query string and no
  trailing slash the URL itself, the URL with the query string \<open>?x=1\<close> appended and the
  URL with a slash appended are all cleaned to \<open>u\<close>.
\<close>

theorem clean_url_canonical:
  assumes "CHR ''?'' \<notin> set u" and "u = [] \<or> last u \<noteq> CHR ''/''"
  shows "clean_url u = u \<and> clean_url (u @ ''?x=1'') = u \<and> clean_url (u @ ''/'') = u
    \<and> clean_url (clean_url h) = clean_url h"
proof -
  have "clean_url u = u"
    using assms by (simp add: clean_url_def split_query_head_id rstrip_slash_id)
  then show ?thesis
    by (simp add: clean_url_query_variant clean_url_slash_variant clean_url_idem)
qed

theorem clean_url_canonical_witness:
  "clean_url ''https://www.gofundme.com/f/help-max'' = ''https://www.gofundme.com/f/help-max''
   \<and> clean_url (''https://www.gofundme.com/f/help-max'' @ ''?x=1'')
       = ''https://www.gofundme.com/f/help-max''
   \<and> clean_url (''https://www.gofundme.com/f/help-max'' @ ''/'')
       = ''https://www.gofundme.com/f/help-max''
   \<and> clean_url (clean_url ''https://www.gofundme.com/f/help-max/?qid=7'')
       = clean_url ''https://www.gofundme.com/f/help-max/?qid=7''"
  using clean_url_canonical [of "''https://www.gofundme.com/f/help-max''"
      "''https://www.gofundme.com/f/help-max/?qid=7''"]
  by simp

section \<open>The discovery loop\<close>

lemma foldl_add_url_new:
  "distinct new \<Longrightarrow> set new \<inter> set s = {} \<Longrightarrow> foldl add_url s new = s @ new"
  by (induction new arbitrary: s) (auto simp: add_url_def)

lemma distinct_visible_from: "distinct urls \<Longrightarrow> distinct (visible_from urls links)"
  by (induction urls links rule: visible_from.induct) (auto simp: Let_def)

lemma distinct_extract_visible_urls: "distinct (extract_visible_urls v)"
  by (simp add: extract_visible_urls_def distinct_visible_from split: option.splits)

lemma campaign_urls_iteration:
  "campaign_urls (iteration st v)
     = campaign_urls st @ new_urls (extract_visible_urls v) (campaign_urls st)"
proof -
  let ?new = "new_urls (extract_visible_urls v) (campaign_urls st)"
  have "distinct ?new"
    by (simp add: new_urls_def distinct_extract_visible_urls)
  moreover have "set ?new \<inter> set (campaign_urls st) = {}"
    by (auto simp: new_urls_def)
  ultimately have "foldl add_url (campaign_urls st) ?new = campaign_urls st @ ?new"
    by (rule foldl_add_url_new)
  then show ?thesis
    by (simp add: iteration_def Let_def)
qed

lemma iteration_no_new:
  "new_urls (extract_visible_urls v) (campaign_urls st) = [] \<Longrightarrow>
   iteration st v = st\<lparr>no_new_count := no_new_count st + 1\<rparr>"
  by (simp add: iteration_def Let_def)

lemma length_py_slice_to:
  "0 \<le> n \<Longrightarrow> length (py_slice_to xs n) = min (nat n) (length xs)"
  by (simp add: py_slice_to_def)

lemma enumerates_length: "enumerates set_iter s \<Longrightarrow> length (set_iter s) = length s"
  unfolding enumerates_def by (metis size_mset)

lemma enumerates_set: "enumerates set_iter s \<Longrightarrow> set (set_iter s) = set s"
  unfolding enumerates_def by (metis set_mset_mset)

lemma enumerates_distinct: "enumerates set_iter s \<Longrightarrow> distinct (set_iter s) = distinct s"
  unfolding enumerates_def by (metis mset_eq_imp_distinct_iff)

text \<open>
  C1, as amended. When one reading of the page shows more than \<open>N\<close> new distinct
  URLs, all of them are added: the set then has more than \<open>N\<close> members, the loop
  stops at that reading as \<open>Capped\<close>, and the list returned is cut to exactly \<open>N\<close>
  entries.
\<close>

theorem cap_overshoot_then_cut:
  assumes head: "int (length (campaign_urls st)) < N" "attempts st \<le> 100"
    and many: "N < int (length (new_urls (extract_visible_urls (views (attempts st))) (campaign_urls st)))"
    and enum: "enumerates set_iter (campaign_urls (iteration st (views (attempts st))))"
  shows "collect_loop N views st = (Capped, iteration st (views (attempts st)))
    \<and> length (campaign_urls (iteration st (views (attempts st))))
        = length (campaign_urls st)
          + length (new_urls (extract_visible_urls (views (attempts st))) (campaign_urls st))
    \<and> N < int (length (campaign_urls (iteration st (views (attempts st)))))
    \<and> int (length (snapshot set_iter (campaign_urls (iteration st (views (attempts st)))) N)) = N"
proof -
  let ?st1 = "iteration st (views (attempts st))"
  have len: "length (campaign_urls ?st1) = length (campaign_urls st)
      + length (new_urls (extract_visible_urls (views (attempts st))) (campaign_urls st))"
    by (simp add: campaign_urls_iteration)
  with many have over: "N < int (length (campaign_urls ?st1))" by linarith
  have loop: "collect_loop N views st = (Capped, ?st1)"
    using head over by (subst collect_loop.simps) (simp add: Let_def)
  have "0 \<le> N" using head by linarith
  then have "length (snapshot set_iter (campaign_urls ?st1) N)
      = min (nat N) (length (campaign_urls ?st1))"
    by (simp add: snapshot_def length_py_slice_to enumerates_length [OF enum])
  with over \<open>0 \<le> N\<close> have "int (length (snapshot set_iter (campaign_urls ?st1) N)) = N"
    by simp
  with loop len over show ?thesis by simp
qed

lemma visible_two_links: "extract_visible_urls (Some [Some ''https://www.gofundme.com/f/a?x=1'', Some ''https://www.gofundme.com/f/b/'']) = [''https://www.gofundme.com/f/a'', ''https://www.gofundme.com/f/b'']"
  by (simp add: extract_visible_urls_def clean_url_def split_query_head_def rstrip_slash_def)

lemma iteration_two_links: "campaign_urls (iteration \<lparr>campaign_urls = [], attempts = 0, no_new_count = 0\<rparr> (Some [Some ''https://www.gofundme.com/f/a?x=1'', Some ''https://www.gofundme.com/f/b/''])) = [''https://www.gofundme.com/f/a'', ''https://www.gofundme.com/f/b'']"
  by (simp add: campaign_urls_iteration visible_two_links new_urls_def)

text \<open>
  C2. Three consecutive readings of the page that each show no new URL, the first of them
  with the strike counter at 0 (the three run when attempts 0..100 are left for them),
  end the loop as \<open>Exhausted\<close> at the third reading, whatever the set holds: the set is
  unchanged, and \<open>attempts\<close> has advanced by two.
\<close>

theorem stagnation_exhausts:
  assumes head: "int (length (campaign_urls st)) < N" "attempts st + 2 \<le> 100"
    and fresh: "no_new_count st = 0"
    and z0: "new_urls (extract_visible_urls (views (attempts st))) (campaign_urls st) = []"
    and z1: "new_urls (extract_visible_urls (views (attempts st + 1))) (campaign_urls st) = []"
    and z2: "new_urls (extract_visible_urls (views (attempts st + 2))) (campaign_urls st) = []"
  shows "collect_loop N views st
    = (Exhausted, st\<lparr>attempts := attempts st + 2, no_new_count := 3\<rparr>)"
proof -
  let ?s1 = "st\<lparr>no_new_count := 1, attempts := attempts st + 1\<rparr>"
  let ?s2 = "st\<lparr>no_new_count := 2, attempts := attempts st + 2\<rparr>"
  have i0: "iteration st (views (attempts st)) = st\<lparr>no_new_count := 1\<rparr>"
    using z0 fresh by (simp add: iteration_no_new)
  have i1: "iteration ?s1 (views (attempts st + 1)) = ?s1\<lparr>no_new_count := 2\<rparr>"
    using z1 by (simp add: iteration_no_new)
  have i2: "iteration ?s2 (views (attempts st + 2)) = ?s2\<lparr>no_new_count := 3\<rparr>"
    using z2 by (simp add: iteration_no_new)
  have "collect_loop N views ?s2 = (Exhausted, ?s2\<lparr>no_new_count := 3\<rparr>)"
    using head i2 by (subst collect_loop.simps) (simp add: Let_def)
  moreover have "collect_loop N views ?s1 = collect_loop N views ?s2"
    using head i1 by (subst collect_loop.simps) (simp add: Let_def)
  moreover have "collect_loop N views st = collect_loop N views ?s1"
    using head i0 by (subst collect_loop.simps) (simp add: Let_def)
  ultimately show ?thesis by simp
qed

text \<open>
  C5, as amended. For a limit that is not negative, the snapshot has at most \<open>limit\<close>
  entries (exactly \<open>min limit (len set)\<close>), without duplicates, all of them members of
  the set; their order is the iteration order of the set.
\<close>

theorem snapshot_bounded:
  assumes "enumerates set_iter s" and "distinct s" and "0 \<le> limit"
  shows "int (length (snapshot set_iter s limit)) \<le> limit
    \<and> length (snapshot set_iter s limit) = min (nat limit) (length s)
    \<and> distinct (snapshot set_iter s limit)
    \<and> set (snapshot set_iter s limit) \<subseteq> set s"
proof -
  have "set (take (nat limit) (set_iter s)) \<subseteq> set s"
    using enumerates_set [OF assms(1)] set_take_subset by fastforce
  moreover have "distinct (take (nat limit) (set_iter s))"
    using enumerates_distinct [OF assms(1)] assms(2) by simp
  ultimately show ?thesis
    using assms(3) by (auto simp: snapshot_def py_slice_to_def enumerates_length [OF assms(1)])
qed

theorem cap_overshoot_then_cut_witness:
  "collect_loop 1 (\<lambda>i. Some [Some ''https://www.gofundme.com/f/a?x=1'', Some ''https://www.gofundme.com/f/b/''])
      \<lparr>campaign_urls = [], attempts = 0, no_new_count = 0\<rparr>
    = (Capped, \<lparr>campaign_urls = [''https://www.gofundme.com/f/a'', ''https://www.gofundme.com/f/b''],
         attempts = 0, no_new_count = 0\<rparr>)
   \<and> snapshot rev [''https://www.gofundme.com/f/a'', ''https://www.gofundme.com/f/b''] 1
       = [''https://www.gofundme.com/f/b'']"
proof -
  let ?v = "Some [Some ''https://www.gofundme.com/f/a?x=1'', Some ''https://www.gofundme.com/f/b/'']"
  let ?st = "\<lparr>campaign_urls = [], attempts = 0, no_new_count = 0\<rparr>"
  have it: "iteration ?st ?v = \<lparr>campaign_urls = [''https://www.gofundme.com/f/a'', ''https://www.gofundme.com/f/b''],
         attempts = 0, no_new_count = 0\<rparr>"
    by (simp add: iteration_def new_urls_def add_url_def visible_two_links)
  have "enumerates rev (campaign_urls (iteration ?st ((\<lambda>i. ?v) (attempts ?st))))"
    by (simp add: enumerates_def)
  from cap_overshoot_then_cut [of ?st 1 "\<lambda>i. ?v" rev, OF _ _ _ this]
  show ?thesis
    by (simp add: it visible_two_links new_urls_def snapshot_def py_slice_to_def)
qed

text \<open>
  C1 as stated fails: with the target 1 and two new URLs visible, the set holds two URLs
  after the iteration, not one.
\<close>

theorem frontier_size_counterexample:
  "1 < length (new_urls (extract_visible_urls
        (Some [Some ''https://www.gofundme.com/f/a?x=1'', Some ''https://www.gofundme.com/f/b/''])) [])
   \<and> length (campaign_urls (snd (collect_loop 1
        (\<lambda>i. Some [Some ''https://www.gofundme.com/f/a?x=1'', Some ''https://www.gofundme.com/f/b/''])
        \<lparr>campaign_urls = [], attempts = 0, no_new_count = 0\<rparr>))) = 2"
  by (subst collect_loop.simps) (simp add: visible_two_links new_urls_def iteration_def add_url_def)

theorem stagnation_exhausts_witness:
  "collect_loop 5 (\<lambda>i. Some [Some ''https://www.gofundme.com/f/a?x=1''])
      \<lparr>campaign_urls = [''https://www.gofundme.com/f/a''], attempts = 7, no_new_count = 0\<rparr>
    = (Exhausted,
       \<lparr>campaign_urls = [''https://www.gofundme.com/f/a''], attempts = 9, no_new_count = 3\<rparr>)"
  using stagnation_exhausts [of "\<lparr>campaign_urls = [''https://www.gofundme.com/f/a''], attempts = 7, no_new_count = 0\<rparr>"
      5 "\<lambda>i. Some [Some ''https://www.gofundme.com/f/a?x=1'']"]
  by (simp add: new_urls_def extract_visible_urls_def clean_url_def split_query_head_def rstrip_slash_def)

theorem snapshot_bounded_witness:
  "length (snapshot rev [''https://www.gofundme.com/f/a'', ''https://www.gofundme.com/f/b''] 1) = 1
   \<and> set (snapshot rev [''https://www.gofundme.com/f/a'', ''https://www.gofundme.com/f/b''] 1)
       \<subseteq> {''https://www.gofundme.com/f/a'', ''https://www.gofundme.com/f/b''}"
  using snapshot_bounded [of rev "[''https://www.gofundme.com/f/a'', ''https://www.gofundme.com/f/b'']" 1]
  by (simp add: enumerates_def)

text \<open>
  C5 as stated fails: an iteration order of the set other than the insertion order puts
  the newest URL first, and a negative limit returns more than \<open>limit\<close> entries.
\<close>

theorem snapshot_order_counterexample:
  "enumerates rev [''https://www.gofundme.com/f/a'', ''https://www.gofundme.com/f/b'']
   \<and> snapshot rev [''https://www.gofundme.com/f/a'', ''https://www.gofundme.com/f/b''] 1
       \<noteq> take 1 [''https://www.gofundme.com/f/a'', ''https://www.gofundme.com/f/b'']
   \<and> enumerates id [''https://www.gofundme.com/f/a'', ''https://www.gofundme.com/f/b'']
   \<and> \<not> int (length (snapshot id [''https://www.gofundme.com/f/a'', ''https://www.gofundme.com/f/b''] (- 1))) \<le> - 1"
  by (simp add: enumerates_def snapshot_def py_slice_to_def)


section \<open>The amount raised\<close>

lemma findall_amounts_shape:
  "a \<in> set (findall_amounts t) \<Longrightarrow>
   \<exists>run. a = CHR ''$'' # run \<and> run \<noteq> [] \<and> list_all digit_or_comma run"
proof (induction t rule: findall_amounts.induct)
  case 1
  then show ?case by simp
next
  case (2 c cs)
  show ?case
  proof (cases "c = CHR ''$'' \<and> takeWhile digit_or_comma cs \<noteq> []")
    case True
    with "2.prems" have "a = c # takeWhile digit_or_comma cs
        \<or> a \<in> set (findall_amounts (dropWhile digit_or_comma cs))"
      by auto
    then show ?thesis
    proof
      assume "a = c # takeWhile digit_or_comma cs"
      with True show ?thesis
        by (auto simp: list_all_iff dest: set_takeWhileD)
    next
      assume "a \<in> set (findall_amounts (dropWhile digit_or_comma cs))"
      with True "2.IH"(1) show ?thesis by blast
    qed
  next
    case False
    with "2.prems" have "a \<in> set (findall_amounts cs)" by auto
    with False "2.IH"(2) show ?thesis by blast
  qed
qed

lemma findall_amounts_in_text:
  "a \<in> set (findall_amounts t) \<Longrightarrow> \<exists>pre post. t = pre @ a @ post"
proof (induction t rule: findall_amounts.induct)
  case 1
  then show ?case by simp
next
  case (2 c cs)
  show ?case
  proof (cases "c = CHR ''$'' \<and> takeWhile digit_or_comma cs \<noteq> []")
    case True
    with "2.prems" have "a = c # takeWhile digit_or_comma cs
        \<or> a \<in> set (findall_amounts (dropWhile digit_or_comma cs))"
      by auto
    then show ?thesis
    proof
      assume "a = c # takeWhile digit_or_comma cs"
      then have "c # cs = [] @ a @ dropWhile digit_or_comma cs" by simp
      then show ?thesis by blast
    next
      assume "a \<in> set (findall_amounts (dropWhile digit_or_comma cs))"
      with True "2.IH"(1) obtain pre post where "dropWhile digit_or_comma cs = pre @ a @ post"
        by blast
      then have "c # cs = (c # takeWhile digit_or_comma cs @ pre) @ a @ post"
        by (metis append_Cons append_assoc takeWhile_dropWhile_id)
      then show ?thesis by blast
    qed
  next
    case False
    with "2.prems" have "a \<in> set (findall_amounts cs)" by auto
    with False "2.IH"(2) obtain pre post where "cs = pre @ a @ post" by blast
    then have "c # cs = (c # pre) @ a @ post" by simp
    then show ?thesis by blast
  qed
qed

lemma findall_amounts_found:
  "digit_or_comma d \<Longrightarrow> findall_amounts (pre @ CHR ''$'' # d # post) \<noteq> []"
proof (induction "pre @ CHR ''$'' # d # post" arbitrary: pre rule: findall_amounts.induct)
  case 1
  then show ?case by simp
next
  case (2 c cs)
  show ?case
  proof (cases "c = CHR ''$'' \<and> takeWhile digit_or_comma cs \<noteq> []")
    case True
    then show ?thesis using "2.hyps"(3) [symmetric] by simp
  next
    case False
    show ?thesis
    proof (cases pre)
      case Nil
      with "2.hyps"(3) "2.prems" False show ?thesis by auto
    next
      case (Cons p pre')
      with "2.hyps"(3) have "cs = pre' @ CHR ''$'' # d # post" by simp
      with "2.hyps"(2) False "2.prems" have "findall_amounts (pre' @ CHR ''$'' # d # post) \<noteq> []"
        by blast
      with False "2.hyps"(3) [symmetric] \<open>cs = pre' @ CHR ''$'' # d # post\<close> show ?thesis
        by simp
    qed
  qed
qed

lemma py_max_Max: "xs \<noteq> [] \<Longrightarrow> py_max xs = Max (set xs)"
proof (cases xs)
  case Nil
  then show "xs \<noteq> [] \<Longrightarrow> ?thesis" by simp
next
  case (Cons x ys)
  have "foldl max a ys = fold max ys a" for a :: nat
    by (induction ys arbitrary: a) (simp_all add: max.commute)
  moreover have "Max (set (x # ys)) = fold max ys x"
    by (rule Max.set_eq_fold)
  ultimately show ?thesis using Cons by (simp del: set_simps)
qed

lemma sequence_Some: "sequence xs = Some ys \<longleftrightarrow> xs = map Some ys"
  by (induction xs arbitrary: ys rule: sequence.induct) auto

lemma sequence_None: "sequence xs = None \<longleftrightarrow> None \<in> set xs"
  by (induction xs rule: sequence.induct) auto

lemma sequence_all_Some:
  "list_all (\<lambda>x. f x = Some (g x)) xs \<Longrightarrow> sequence (map f xs) = Some (map g xs)"
  by (induction xs) auto

lemma amount_number_token:
  assumes "a = CHR ''$'' # run" and "list_all digit_or_comma run"
  shows "amount_number a =
    (if 1 \<le> length (filter is_digit a) \<and> length (filter is_digit a) \<le> 4300
     then Some (digits_value (filter is_digit a)) else None)"
proof -
  have nd: "\<not> is_digit CHR ''$''" "\<not> is_digit CHR '',''"
    by (simp_all add: is_digit_def)
  have f1: "filter (\<lambda>c. c \<noteq> CHR ''$'') a = run"
    using assms nd by (auto simp: list_all_iff digit_or_comma_def filter_id_conv)
  have f2: "filter (\<lambda>c. c \<noteq> CHR '','') run = filter is_digit run"
    using assms(2) nd by (intro filter_cong) (auto simp: list_all_iff digit_or_comma_def)
  have f3: "filter is_digit a = filter is_digit run"
    using assms(1) nd by simp
  have "amount_number a = py_int (filter is_digit a)"
    by (simp add: amount_number_def f1 f2 f3)
  moreover have "filter is_digit a \<noteq> [] \<longleftrightarrow> 1 \<le> length (filter is_digit a)"
    by (cases "filter is_digit a") simp_all
  ultimately show ?thesis
    by (simp add: py_int_def int_max_str_digits_def list_all_iff)
qed

lemma digit_char_digit: "d < 10 \<Longrightarrow> is_digit (digit_char d) \<and> digit_val (digit_char d) = d"
proof -
  assume "d < 10"
  then have "d \<in> {0, 1, 2, 3, 4, 5, 6, 7, 8, 9}" by auto
  then show ?thesis
    by (auto simp: digit_char_def is_digit_def digit_val_def)
qed

lemma str_nat_digits: "str_nat n \<noteq> [] \<and> list_all is_digit (str_nat n)
    \<and> digits_value (str_nat n) = n"
proof (induction n rule: str_nat.induct)
  case (1 n)
  show ?case
  proof (cases "n < 10")
    case True
    then show ?thesis using digit_char_digit [of n]
      by (subst (1 2 3) str_nat.simps) (simp add: digits_value_def)
  next
    case False
    have "n mod 10 < 10" by simp
    with False "1.IH" digit_char_digit [of "n mod 10"] show ?thesis
      by (subst (1 2 3) str_nat.simps) (simp add: digits_value_def)
  qed
qed

lemma str_nat_small: "n < 10 \<Longrightarrow> str_nat n = [digit_char n]"
  by (subst str_nat.simps) simp

text \<open>
  C10, as amended. With no match of \<open>\$[\d,]+\<close> in the page text the amount is
  \<open>'0'\<close>. When there are matches and each holds between 1 and 4300 digits, the amount
  is the decimal string of the largest of their values (commas removed). When some match
  holds no digit (a \<open>$\<close> followed by commas only) or more than 4300 digits, the amount
  is \<open>'0'\<close>, whatever the other matches are.
\<close>

theorem amount_raised_largest:
  "(findall_amounts t = [] \<longrightarrow> amount_raised t = ''0'')
   \<and> (findall_amounts t \<noteq> []
        \<and> list_all (\<lambda>a. 1 \<le> length (filter is_digit a) \<and> length (filter is_digit a) \<le> 4300)
             (findall_amounts t) \<longrightarrow>
        amount_raised t
          = str_nat (Max (set (map (\<lambda>a. digits_value (filter is_digit a)) (findall_amounts t))))
        \<and> list_all is_digit (amount_raised t)
        \<and> digits_value (amount_raised t)
          = Max (set (map (\<lambda>a. digits_value (filter is_digit a)) (findall_amounts t))))
   \<and> (\<not> list_all (\<lambda>a. 1 \<le> length (filter is_digit a) \<and> length (filter is_digit a) \<le> 4300)
           (findall_amounts t) \<longrightarrow> amount_raised t = ''0'')"
proof (intro conjI impI)
  assume "findall_amounts t = []"
  then show "amount_raised t = ''0''" by (simp add: amount_raised_def)
next
  let ?ok = "\<lambda>a. 1 \<le> length (filter is_digit a) \<and> length (filter is_digit a) \<le> 4300"
  let ?val = "\<lambda>a. digits_value (filter is_digit a)"
  assume a: "findall_amounts t \<noteq> [] \<and> list_all ?ok (findall_amounts t)"
  have "list_all (\<lambda>x. amount_number x = Some (?val x)) (findall_amounts t)"
    unfolding list_all_iff
  proof
    fix tok assume tok: "tok \<in> set (findall_amounts t)"
    then obtain run where "tok = CHR ''$'' # run" "list_all digit_or_comma run"
      using findall_amounts_shape by blast
    then have "amount_number tok = (if ?ok tok then Some (?val tok) else None)"
      by (rule amount_number_token)
    with tok a show "amount_number tok = Some (?val tok)" by (simp add: list_all_iff)
  qed
  then have "sequence (map amount_number (findall_amounts t)) = Some (map ?val (findall_amounts t))"
    by (rule sequence_all_Some)
  with a have r: "amount_raised t = str_nat (Max (set (map ?val (findall_amounts t))))"
    by (simp add: amount_raised_def Let_def py_max_Max)
  then show "amount_raised t = str_nat (Max (set (map ?val (findall_amounts t))))" .
  from r show "list_all is_digit (amount_raised t)" by (simp add: str_nat_digits)
  from r show "digits_value (amount_raised t) = Max (set (map ?val (findall_amounts t)))"
    by (simp add: str_nat_digits)
next
  let ?ok = "\<lambda>a. 1 \<le> length (filter is_digit a) \<and> length (filter is_digit a) \<le> 4300"
  assume b: "\<not> list_all ?ok (findall_amounts t)"
  then obtain tok where tok: "tok \<in> set (findall_amounts t)" "\<not> ?ok tok"
    unfolding list_all_iff by blast
  from tok(1) obtain run where "tok = CHR ''$'' # run" "list_all digit_or_comma run"
    using findall_amounts_shape by blast
  then have "amount_number tok
      = (if ?ok tok then Some (digits_value (filter is_digit tok)) else None)"
    by (rule amount_number_token)
  with tok(2) have "amount_number tok = None" by simp
  with tok(1) have "None \<in> set (map amount_number (findall_amounts t))"
    by force
  then have "sequence (map amount_number (findall_amounts t)) = None"
    by (simp add: sequence_None)
  then show "amount_raised t = ''0''"
    by (simp add: amount_raised_def Let_def)
qed


lemma tokens_1: "findall_amounts ''$1,250 raised of $5,000 goal'' = [''$1,250'', ''$5,000'']"
  by (simp add: digit_or_comma_def is_digit_def)

lemma tokens_2: "findall_amounts ''$5 $,'' = [''$5'', ''$,'']"
  by (simp add: digit_or_comma_def is_digit_def)

lemma tokens_3: "findall_amounts ''Help Max recover'' = []"
  by simp

lemma tokens_long:
  "findall_amounts (CHR ''$'' # replicate 4301 CHR ''9'') = [CHR ''$'' # replicate 4301 CHR ''9'']"
  by (simp add: digit_or_comma_def is_digit_def takeWhile_replicate dropWhile_replicate)

theorem amount_raised_largest_witness:
  "amount_raised ''$1,250 raised of $5,000 goal'' = ''5000''
   \<and> amount_raised ''Help Max recover'' = ''0''
   \<and> amount_raised ''$5 $,'' = ''0''
   \<and> amount_raised (CHR ''$'' # replicate 4301 CHR ''9'') = ''0''"
proof -
  have 1: "amount_raised ''$1,250 raised of $5,000 goal'' = ''5000''"
    using amount_raised_largest [of "''$1,250 raised of $5,000 goal''"]
    by (simp add: tokens_1 is_digit_def digits_value_def digit_val_def str_nat.simps
          digit_char_def del: findall_amounts.simps)
  have 2: "amount_raised ''Help Max recover'' = ''0''"
    using amount_raised_largest [of "''Help Max recover''"]
    by (simp add: tokens_3 del: findall_amounts.simps)
  have 3: "amount_raised ''$5 $,'' = ''0''"
    using amount_raised_largest [of "''$5 $,''"]
    by (simp add: tokens_2 is_digit_def del: findall_amounts.simps)
  have 4: "amount_raised (CHR ''$'' # replicate 4301 CHR ''9'') = ''0''"
    using amount_raised_largest [of "CHR ''$'' # replicate 4301 CHR ''9''"]
    by (simp add: tokens_long is_digit_def del: findall_amounts.simps)
  from 1 2 3 4 show ?thesis by simp
qed

text \<open>
  C10 as stated fails: in \<open>$5 $,\<close> the token \<open>$5\<close> is found and its value is 5, yet
  the amount stored is \<open>'0'\<close>.
\<close>

theorem amount_raised_counterexample:
  "findall_amounts ''$5 $,'' = [''$5'', ''$,'']
   \<and> amount_number ''$5'' = Some 5
   \<and> amount_raised ''$5 $,'' = ''0''
   \<and> amount_raised ''$5 $,'' \<noteq> str_nat 5"
proof -
  have "amount_number ''$5'' = Some 5" "amount_number ''$,'' = None"
    by (simp_all add: amount_number_def py_int_def int_max_str_digits_def digits_value_def
          is_digit_def digit_val_def)
  then show ?thesis
    by (simp add: tokens_2 amount_raised_def Let_def str_nat_small digit_char_def
          del: findall_amounts.simps)
qed

end
